theory Spec2Isabelle
  imports Complex_Main "HOL-Library.Char_ord" "HOL-Library.List_Lexorder"
begin

section \<open>Configuration constants of \<^verbatim>\<open>check_flights.py\<close>\<close>

definition PASSENGERS :: int where
  "PASSENGERS = 2"

definition MAX_STOPS :: nat where
  "MAX_STOPS = 1"

definition ALL_CARRIERS :: "string list" where
  "ALL_CARRIERS = [''QR'', ''EK'', ''EY'', ''SQ'']"

definition CARRIER_NAMES :: "(string \<times> string) list" where
  "CARRIER_NAMES =
    [(''QR'', ''Qatar Airways''), (''EK'', ''Emirates''),
     (''EY'', ''Etihad''), (''SQ'', ''Singapore Airlines'')]"

definition VELOCITY_PROGRAM :: string where
  "VELOCITY_PROGRAM = ''velocity''"

text \<open>The exceptions the modelled code can raise.\<close>

datatype error = KeyError | IndexError | ZeroDivisionError

section \<open>Points booster price table and \<^verbatim>\<open>booster_cost\<close>\<close>

text \<open>
  \<^verbatim>\<open>BOOSTER_TABLE\<close> is a dict literal with pairwise distinct keys; it is kept as the
  association list of its items, in the order of the source, and read with \<open>map_of\<close>.
\<close>

definition BOOSTER_TABLE :: "(int \<times> int) list" where
  "BOOSTER_TABLE =
    [(1000, 36), (1500, 51), (2000, 68), (2500, 85),
     (3000, 101), (3500, 118), (4000, 135), (4500, 152),
     (5000, 168), (6000, 201), (7000, 233), (8000, 264),
     (9000, 296), (10000, 325), (11000, 353), (12000, 375),
     (13000, 399), (14000, 427), (15000, 452), (16000, 469),
     (17000, 492), (18000, 512), (19000, 535), (20000, 555),
     (21000, 580), (22000, 605), (23000, 629), (24000, 653),
     (25000, 677), (26000, 698), (27000, 720), (28000, 743),
     (29000, 765), (30000, 787), (35000, 894), (40000, 994),
     (45000, 1086), (50000, 1172), (60000, 1404), (70000, 1638),
     (80000, 1872), (90000, 2106), (100000, 2340),
     (150000, 3510), (200000, 4680), (250000, 5850)]"

text \<open>\<^verbatim>\<open>BOOSTER_TIERS = sorted(BOOSTER_TABLE.keys())\<close>\<close>

definition BOOSTER_TIERS :: "int list" where
  "BOOSTER_TIERS = sort (map fst BOOSTER_TABLE)"

text \<open>
  \<^verbatim>\<open>next((t for t in BOOSTER_TIERS if t >= chunk), 250_000)\<close>: the first tier of the
  sorted list that covers the chunk, and 250000 when the generator is exhausted.
\<close>

definition next_tier :: "int \<Rightarrow> int" where
  "next_tier chunk =
     (case find (\<lambda>t. t \<ge> chunk) BOOSTER_TIERS of Some t \<Rightarrow> t | None \<Rightarrow> 250000)"

text \<open>
  The \<^verbatim>\<open>while remaining > 0\<close> loop of \<^verbatim>\<open>booster_cost\<close>, with the three local variables
  as arguments. \<^verbatim>\<open>BOOSTER_TABLE[tier]\<close> raises \<^verbatim>\<open>KeyError\<close> on a missing key.
\<close>

function booster_loop :: "int \<Rightarrow> int \<Rightarrow> int \<Rightarrow> error + (int \<times> int)" where
  "booster_loop total_cost total_bought remaining =
     (if remaining > 0 then
        (let chunk = min remaining 250000;
             tier = next_tier chunk
         in case map_of BOOSTER_TABLE tier of
              None \<Rightarrow> Inl KeyError
            | Some price \<Rightarrow>
                booster_loop (total_cost + price) (total_bought + tier) (remaining - chunk))
      else Inr (total_bought, total_cost))"
  by pat_completeness auto
termination
  by (relation "measure (\<lambda>(total_cost, total_bought, remaining). nat remaining)") auto

text \<open>\<^verbatim>\<open>booster_cost(points_needed)\<close> returns \<^verbatim>\<open>(total_bought, total_cost)\<close>.\<close>

definition booster_cost :: "int \<Rightarrow> error + (int \<times> int)" where
  "booster_cost points_needed = booster_loop 0 0 points_needed"


section \<open>Python primitives used by the tracker\<close>

text \<open>
  Prices are Python floats in the source. They are modelled as exact rationals: the
  model covers finite prices and leaves IEEE rounding, infinities and NaN out. Python
  strings are modelled as \<open>string\<close> with one \<open>char\<close> per code point below 256.
\<close>

text \<open>\<^verbatim>\<open>int(x)\<close> on a float truncates towards zero.\<close>

definition py_int :: "rat \<Rightarrow> int" where
  "py_int x = (if 0 \<le> x then \<lfloor>x\<rfloor> else \<lceil>x\<rceil>)"

text \<open>
  \<^verbatim>\<open>round(x)\<close> on a float, and the \<^verbatim>\<open>.0f\<close> format, round to the nearest integer and
  a tie to the even neighbour.
\<close>

definition py_round :: "rat \<Rightarrow> int" where
  "py_round x =
     (let f = \<lfloor>x\<rfloor>; d = x - of_int f
      in if d < 1 / 2 then f else if 1 / 2 < d then f + 1
         else if even f then f else f + 1)"

text \<open>\<^verbatim>\<open>a / b\<close> raises \<^verbatim>\<open>ZeroDivisionError\<close> when \<^verbatim>\<open>b\<close> is zero.\<close>

definition py_div :: "rat \<Rightarrow> rat \<Rightarrow> error + rat" where
  "py_div a b = (if b = 0 then Inl ZeroDivisionError else Inr (a / b))"

text \<open>\<^verbatim>\<open>d[k]\<close> raises \<^verbatim>\<open>KeyError\<close> on a missing key.\<close>

definition subscript :: "('k \<times> 'v) list \<Rightarrow> 'k \<Rightarrow> error + 'v" where
  "subscript d k = (case map_of d k of None \<Rightarrow> Inl KeyError | Some v \<Rightarrow> Inr v)"

text \<open>\<^verbatim>\<open>str.lower()\<close>, on the code points below 256.\<close>

definition lower_char :: "char \<Rightarrow> char" where
  "lower_char c =
     (let n = (of_char c :: nat)
      in if (65 \<le> n \<and> n \<le> 90) \<or> (192 \<le> n \<and> n \<le> 222 \<and> n \<noteq> 215)
         then char_of (n + 32) else c)"

definition lower :: "string \<Rightarrow> string" where
  "lower s = map lower_char s"

text \<open>\<^verbatim>\<open>str.strip()\<close> removes the white space of both ends.\<close>

definition is_space :: "char \<Rightarrow> bool" where
  "is_space c =
     (let n = (of_char c :: nat)
      in (9 \<le> n \<and> n \<le> 13) \<or> (28 \<le> n \<and> n \<le> 32) \<or> n = 133 \<or> n = 160)"

definition strip :: "string \<Rightarrow> string" where
  "strip s = rev (dropWhile is_space (rev (dropWhile is_space s)))"

text \<open>\<^verbatim>\<open>s.split(sep)\<close> for a one-character separator: never an empty list.\<close>

fun split_on :: "char \<Rightarrow> string \<Rightarrow> string list" where
  "split_on sep [] = [[]]"
| "split_on sep (c # cs) =
     (if c = sep then [] # split_on sep cs
      else (case split_on sep cs of [] \<Rightarrow> [[c]] | w # ws \<Rightarrow> (c # w) # ws))"

text \<open>\<^verbatim>\<open>sep.join(xs)\<close>\<close>

fun join :: "string \<Rightarrow> string list \<Rightarrow> string" where
  "join sep [] = []"
| "join sep [x] = x"
| "join sep (x # y # ys) = x @ sep @ join sep (y # ys)"

text \<open>\<^verbatim>\<open>sub in s\<close> on strings.\<close>

fun str_in :: "string \<Rightarrow> string \<Rightarrow> bool" where
  "str_in sub [] = (sub = [])"
| "str_in sub (c # cs) = (take (length sub) (c # cs) = sub \<or> str_in sub cs)"

text \<open>\<^verbatim>\<open>CARRIER_NAMES.get(c, c)\<close>\<close>

definition carrier_name :: "string \<Rightarrow> string" where
  "carrier_name c = (case map_of CARRIER_NAMES c of Some n \<Rightarrow> n | None \<Rightarrow> c)"


section \<open>Offer records\<close>

text \<open>
  The offer dicts built by the two search functions share four keys; the remaining keys
  differ between cash fares and reward seats. The display-only keys \<^verbatim>\<open>layover_min\<close> and
  \<^verbatim>\<open>total_min\<close> of a cash fare, which the source fills from its date and duration
  parsers (neither of which can raise), are not part of the model.
\<close>

record offer =
  cabin :: string
  carrier_codes :: "string list"
  carrier_label :: string
  is_qatar :: bool

record cash_offer = offer +
  flight_nums :: string
  via :: string
  dep :: string
  arr :: string
  price_total :: rat
  price_pp :: rat

record reward_offer = offer +
  flights :: string
  seats_avail :: int
  points_pp :: int
  taxes_pp :: rat
  total_points :: int
  taxes_total :: rat
  pts_bought :: int
  booster_aud :: int
  booster_total :: rat

section \<open>Cash fares: the selection loop of \<^verbatim>\<open>search_cash_fares\<close>\<close>

text \<open>
  The parsed JSON of the fare service, restricted to the keys the loop reads. The
  \<^verbatim>\<open>operating.carrierCode\<close> of a segment may be missing; \<^verbatim>\<open>price.grandTotal\<close> is taken
  after \<^verbatim>\<open>float(...)\<close>.
\<close>

record segment =
  operating_carrierCode :: "string option"
  carrierCode :: string
  number :: string
  departure_iataCode :: string
  departure_at :: string
  arrival_at :: string

record itinerary =
  segments :: "segment list"

record flight_offer =
  itineraries :: "itinerary list"
  grandTotal :: rat

text \<open>
  \<^verbatim>\<open>seg.get("operating", {}).get("carrierCode") or seg.get("carrierCode", "")\<close>: the
  operating carrier unless it is missing or the empty string.
\<close>

definition segment_code :: "segment \<Rightarrow> string" where
  "segment_code seg =
     (case operating_carrierCode seg of
        None \<Rightarrow> carrierCode seg
      | Some c \<Rightarrow> if c = [] then carrierCode seg else c)"

text \<open>
  The em dash the source uses for a direct flight; its code point is beyond the modelled
  range, so it is kept as its three UTF-8 bytes.
\<close>

definition em_dash :: string where
  "em_dash = [char_of (226::nat), char_of (128::nat), char_of (148::nat)]"

text \<open>
  One pass of the \<^verbatim>\<open>for offer in offers\<close> body: \<open>Inr None\<close> is \<^verbatim>\<open>continue\<close>,
  \<open>Inr (Some record)\<close> the record to append, and \<open>Inl IndexError\<close> the exception of
  \<^verbatim>\<open>segments[0]\<close> on an itinerary that has no segment (it passes both filters).
\<close>

definition cash_record :: "string \<Rightarrow> flight_offer \<Rightarrow> error + cash_offer option" where
  "cash_record cabin_arg offer =
     (let itins = itineraries offer in
      if itins = [] then Inr None
      else
        (let segs = segments (itins ! 0) in
         if length segs > MAX_STOPS + 1 then Inr None
         else
           (let carriers_on_flight = map segment_code segs in
            if \<not> set carriers_on_flight \<subseteq> set ALL_CARRIERS then Inr None
            else if segs = [] then Inl IndexError
            else
              (let codes = sort (remdups carriers_on_flight) in
               Inr (Some
                 \<lparr> cabin = lower cabin_arg,
                   carrier_codes = codes,
                   carrier_label = join '', '' (map carrier_name codes),
                   is_qatar = (''QR'' \<in> set carriers_on_flight),
                   flight_nums =
                     join '' / '' (map (\<lambda>seg. carrierCode seg @ number seg) segs),
                   via = (if length segs > 1 then departure_iataCode (segs ! 1)
                          else em_dash),
                   dep = departure_at (segs ! 0),
                   arr = arrival_at (last segs),
                   price_total = grandTotal offer,
                   price_pp = grandTotal offer / of_int PASSENGERS \<rparr>)))))"

text \<open>
  The loop, with the two result lists as accumulators; an exception leaves the loop.
\<close>

fun cash_loop ::
  "string \<Rightarrow> flight_offer list \<Rightarrow> cash_offer list \<Rightarrow> cash_offer list
     \<Rightarrow> error + (cash_offer list \<times> cash_offer list)" where
  "cash_loop cabin_arg [] qatar_results other_results = Inr (qatar_results, other_results)"
| "cash_loop cabin_arg (offer # rest) qatar_results other_results =
     (case cash_record cabin_arg offer of
        Inl e \<Rightarrow> Inl e
      | Inr None \<Rightarrow> cash_loop cabin_arg rest qatar_results other_results
      | Inr (Some r) \<Rightarrow>
          if is_qatar r then cash_loop cabin_arg rest (qatar_results @ [r]) other_results
          else cash_loop cabin_arg rest qatar_results (other_results @ [r]))"

text \<open>
  \<^verbatim>\<open>search_cash_fares\<close> from the fetched \<^verbatim>\<open>offers\<close> on: the loop, the two stable sorts by
  \<^verbatim>\<open>price_total\<close> (\<open>sort_key\<close> is a stable insertion sort, \<^verbatim>\<open>list.sort\<close> is stable), and
  the first record of each list.
\<close>

definition search_cash_fares :: "string \<Rightarrow> flight_offer list \<Rightarrow> error + cash_offer list" where
  "search_cash_fares cabin_arg offers =
     (case cash_loop cabin_arg offers [] [] of
        Inl e \<Rightarrow> Inl e
      | Inr (qatar_results, other_results) \<Rightarrow>
          (let qatar_sorted = sort_key price_total qatar_results;
               other_sorted = sort_key price_total other_results
           in Inr ((if qatar_sorted \<noteq> [] then [qatar_sorted ! 0] else [])
                   @ (if other_sorted \<noteq> [] then [other_sorted ! 0] else []))))"

section \<open>Reward seats: the selection loop of \<^verbatim>\<open>search_velocity_seats\<close>\<close>

text \<open>
  One availability item of the rewards service, with the business (\<^verbatim>\<open>J\<close>) and economy
  (\<^verbatim>\<open>Y\<close>) keys the loop reads, after the source's \<^verbatim>\<open>int(... or 0)\<close> and
  \<^verbatim>\<open>float(... or 0)\<close> conversions. The tax totals of a record are exact sums and
  products, where the source rounds to a double; the selection reads \<^verbatim>\<open>points_pp\<close> only.
\<close>

record seats_item =
  Source :: string
  JAvailable :: bool
  YAvailable :: bool
  JRemainingSeats :: int
  YRemainingSeats :: int
  JMileageCost :: int
  YMileageCost :: int
  JTaxes :: rat
  YTaxes :: rat
  Carriers :: string
  FlightNumbers :: string

definition reward_record :: "string \<Rightarrow> seats_item \<Rightarrow> error + reward_offer option" where
  "reward_record cabin_arg item =
     (let is_biz = (cabin_arg = ''business'') in
      if lower (Source item) \<noteq> VELOCITY_PROGRAM then Inr None
      else if \<not> (if is_biz then JAvailable item else YAvailable item) then Inr None
      else
        (let points = (if is_biz then JMileageCost item else YMileageCost item);
             taxes = (if is_biz then JTaxes item else YTaxes item);
             seats = (if is_biz then JRemainingSeats item else YRemainingSeats item);
             codes = filter (\<lambda>c. c \<noteq> []) (map strip (split_on (CHR '','') (Carriers item)))
         in
         if \<not> list_ex (\<lambda>c. c \<in> set ALL_CARRIERS) codes then Inr None
         else
           (case booster_cost (points * PASSENGERS) of
              Inl e \<Rightarrow> Inl e
            | Inr (bought, aud) \<Rightarrow>
                Inr (Some
                  \<lparr> cabin = cabin_arg,
                    carrier_codes = codes,
                    carrier_label = join '', '' (map carrier_name codes),
                    is_qatar = (''QR'' \<in> set codes),
                    flights = FlightNumbers item,
                    seats_avail = seats,
                    points_pp = points,
                    taxes_pp = taxes,
                    total_points = points * PASSENGERS,
                    taxes_total = taxes * of_int PASSENGERS,
                    pts_bought = bought,
                    booster_aud = aud,
                    booster_total = of_int aud + taxes * of_int PASSENGERS \<rparr>))))"

fun reward_loop ::
  "string \<Rightarrow> seats_item list \<Rightarrow> reward_offer list \<Rightarrow> reward_offer list
     \<Rightarrow> error + (reward_offer list \<times> reward_offer list)" where
  "reward_loop cabin_arg [] qatar_results other_results = Inr (qatar_results, other_results)"
| "reward_loop cabin_arg (item # rest) qatar_results other_results =
     (case reward_record cabin_arg item of
        Inl e \<Rightarrow> Inl e
      | Inr None \<Rightarrow> reward_loop cabin_arg rest qatar_results other_results
      | Inr (Some r) \<Rightarrow>
          if is_qatar r then reward_loop cabin_arg rest (qatar_results @ [r]) other_results
          else reward_loop cabin_arg rest qatar_results (other_results @ [r]))"

definition search_velocity_seats :: "string \<Rightarrow> seats_item list \<Rightarrow> error + reward_offer list" where
  "search_velocity_seats cabin_arg data =
     (case reward_loop cabin_arg data [] [] of
        Inl e \<Rightarrow> Inl e
      | Inr (qatar_results, other_results) \<Rightarrow>
          (let qatar_sorted = sort_key points_pp qatar_results;
               other_sorted = sort_key points_pp other_results
           in Inr ((if qatar_sorted \<noteq> [] then [qatar_sorted ! 0] else [])
                   @ (if other_sorted \<noteq> [] then [other_sorted ! 0] else []))))"


section \<open>Price context: \<^verbatim>\<open>price_percentile_label\<close>\<close>

text \<open>
  The \<^verbatim>\<open>metrics\<close> argument is a dict or \<^verbatim>\<open>None\<close>; the dict is an association list read
  with \<open>map_of\<close>, and the empty list is the empty dict.

  The returned f-string is kept in its parts. \<open>Approx p\<close> stands for \<^verbatim>\<open>"~{p}th"\<close> and
  \<open>Over p\<close> for \<^verbatim>\<open>">{p}th"\<close>; the three coloured circles are \<open>Green\<close>, \<open>Yellow\<close> and
  \<open>Red\<close>. \<open>Context pct amount above emoji\<close> stands for
  \<^verbatim>\<open>"{pct} percentile (dot) AUD ${amount:,} {above|below} median {emoji}"\<close>, where \<open>amount\<close> is
  \<^verbatim>\<open>abs(vs_median)\<close> as printed by \<^verbatim>\<open>.0f\<close>, and \<open>Unavailable\<close> for
  \<^verbatim>\<open>"_(price data unavailable)_"\<close>.
\<close>

datatype emoji = Green | Yellow | Red

datatype pct = Approx int | Over int

datatype label = Unavailable | Context pct int bool emoji

type_synonym metrics = "(string \<times> rat) list"

text \<open>
  \<^verbatim>\<open>not metrics or not metrics.get("median")\<close>: no dict, an empty dict, no median key,
  or a median that is zero.
\<close>

definition no_median :: "metrics option \<Rightarrow> bool" where
  "no_median m =
     (case m of
        None \<Rightarrow> True
      | Some d \<Rightarrow> d = [] \<or> (case map_of d ''median'' of None \<Rightarrow> True | Some v \<Rightarrow> v = 0))"

text \<open>
  The pattern of the three interpolating branches:
  \<^verbatim>\<open>ratio = (price_pp - a) / max(b - a, 1); p = int(base + ratio * 25)\<close>, in exact
  arithmetic. The source rounds each of the four operations to a double, so its \<open>p\<close>
  can differ by one from the exact one where the exact value is within rounding error of
  an integer. The properties below are the ones that rounding keeps: the order of two
  results, the bounds of a branch, and the distance of at most one unit.
\<close>

definition interpolate :: "int \<Rightarrow> rat \<Rightarrow> rat \<Rightarrow> rat \<Rightarrow> error + int" where
  "interpolate base price_arg a b =
     (case py_div (price_arg - a) (max (b - a) 1) of
        Inl e \<Rightarrow> Inl e
      | Inr ratio \<Rightarrow> Inr (py_int (of_int base + ratio * 25)))"

text \<open>The \<^verbatim>\<open>if\<close>/\<^verbatim>\<open>elif\<close> chain that sets \<^verbatim>\<open>pct, emoji\<close>.\<close>

definition estimate ::
  "rat \<Rightarrow> rat \<Rightarrow> rat \<Rightarrow> rat \<Rightarrow> rat \<Rightarrow> rat \<Rightarrow> error + (pct \<times> emoji)" where
  "estimate price_arg mn low med hi mx =
     (if price_arg \<le> mn then Inr (Approx 10, Green)
      else if price_arg \<le> low then Inr (Approx 25, Green)
      else if price_arg \<le> med then
        (case interpolate 25 price_arg low med of
           Inl e \<Rightarrow> Inl e | Inr p \<Rightarrow> Inr (Approx p, Green))
      else if price_arg \<le> hi then
        (case interpolate 50 price_arg med hi of
           Inl e \<Rightarrow> Inl e | Inr p \<Rightarrow> Inr (Approx p, Yellow))
      else if price_arg \<le> mx then
        (case interpolate 75 price_arg hi mx of
           Inl e \<Rightarrow> Inl e | Inr p \<Rightarrow> Inr (Approx p, Red))
      else Inr (Over 95, Red))"

definition price_percentile_label :: "rat \<Rightarrow> metrics option \<Rightarrow> error + label" where
  "price_percentile_label price_arg m =
     (if no_median m then Inr Unavailable
      else
        (let d = the m in
         case subscript d ''min'' of Inl e \<Rightarrow> Inl e | Inr mn \<Rightarrow>
         case subscript d ''low'' of Inl e \<Rightarrow> Inl e | Inr low \<Rightarrow>
         case subscript d ''median'' of Inl e \<Rightarrow> Inl e | Inr med \<Rightarrow>
         case subscript d ''high'' of Inl e \<Rightarrow> Inl e | Inr hi \<Rightarrow>
         case subscript d ''max'' of Inl e \<Rightarrow> Inl e | Inr mx \<Rightarrow>
         case estimate price_arg mn low med hi mx of Inl e \<Rightarrow> Inl e | Inr (pct, emoji) \<Rightarrow>
           (let vs_median = price_arg - med
            in Inr (Context pct (py_round \<bar>vs_median\<bar>) (vs_median > 0) emoji))))"

text \<open>The number printed in the percentile part of a label, when there is one.\<close>

fun pct_value :: "pct \<Rightarrow> int" where
  "pct_value (Approx p) = p"
| "pct_value (Over p) = p"

fun reported_percentile :: "error + label \<Rightarrow> int option" where
  "reported_percentile (Inr (Context pct amount is_above emoji)) = Some (pct_value pct)"
| "reported_percentile (Inr Unavailable) = None"
| "reported_percentile (Inl e) = None"

section \<open>Change detection: \<^verbatim>\<open>summarise_for_state\<close> and \<^verbatim>\<open>build_diff\<close>\<close>

text \<open>
  A state dict maps metric names to an integer or \<^verbatim>\<open>None\<close>; it is the association list of
  its items. \<^verbatim>\<open>d.get(key)\<close> is \<^verbatim>\<open>None\<close> for a missing key and for a key bound to \<^verbatim>\<open>None\<close>.
\<close>

type_synonym state = "(string \<times> int option) list"

definition get :: "state \<Rightarrow> string \<Rightarrow> int option" where
  "get d key = (case map_of d key of None \<Rightarrow> None | Some v \<Rightarrow> v)"

definition cash_pp :: "cash_offer list \<Rightarrow> int option" where
  "cash_pp offers = (if offers \<noteq> [] then Some (py_round (price_pp (offers ! 0))) else None)"

definition pts_pp :: "reward_offer list \<Rightarrow> int option" where
  "pts_pp offers = (if offers \<noteq> [] then Some (points_pp (offers ! 0)) else None)"

definition summarise_for_state ::
  "cash_offer list \<Rightarrow> reward_offer list \<Rightarrow> cash_offer list \<Rightarrow> reward_offer list
     \<Rightarrow> cash_offer list \<Rightarrow> reward_offer list \<Rightarrow> cash_offer list \<Rightarrow> reward_offer list
     \<Rightarrow> state" where
  "summarise_for_state cash_biz pts_biz cash_biz_mad_doh pts_biz_mad_doh
       cash_biz_doh_syd pts_biz_doh_syd cash_eco pts_eco =
     [(''biz_cash_pp'', cash_pp cash_biz),
      (''biz_pts_pp_through'', pts_pp pts_biz),
      (''biz_pts_pp_doh_syd'', pts_pp pts_biz_doh_syd),
      (''eco_cash_pp'', cash_pp cash_eco),
      (''eco_pts_pp'', pts_pp pts_eco),
      (''biz_seats_through'',
         Some (if pts_biz \<noteq> [] then seats_avail (pts_biz ! 0) else 0)),
      (''biz_seats_doh_syd'',
         Some (if pts_biz_doh_syd \<noteq> [] then seats_avail (pts_biz_doh_syd ! 0) else 0))]"

text \<open>
  The lines of the diff, in their parts:
  \<^item> \<open>FirstRun\<close> is \<^verbatim>\<open>"_(first run (dash) no previous data)_"\<close>;
  \<^item> \<open>NowAvailable label is_price cur\<close> is \<^verbatim>\<open>"   {label}: now available (...) "\<close>,
    with \<^verbatim>\<open>cur\<close> printed as an amount when \<open>is_price\<close>;
  \<^item> \<open>NoLongerAvailable label\<close> is \<^verbatim>\<open>"   {label}: no longer available "\<close>;
  \<^item> \<open>Changed label is_cash prev cur plus magnitude unit emoji\<close> is
    \<^verbatim>\<open>"   {label}: {prev_str} (arrow) {val_str} ({sign}{abs(diff):,} {unit}) {emoji}"\<close>, with
    both values printed as amounts when \<open>is_cash\<close> and \<^verbatim>\<open>sign\<close> a plus when \<open>plus\<close>;
  \<^item> \<open>NoChanges\<close> is \<^verbatim>\<open>"   No changes from yesterday"\<close>.
\<close>

datatype unit_name = Pts | Seats | AUD

datatype diff_line =
    FirstRun
  | NowAvailable string bool int
  | NoLongerAvailable string
  | Changed string bool int int bool int unit_name emoji
  | NoChanges

definition labels :: "(string \<times> string) list" where
  "labels =
    [(''biz_cash_pp'', ''Business cash (pp)''),
     (''biz_pts_pp_through'', ''Business points through (pp)''),
     (''biz_pts_pp_doh_syd'', ''DOH->SYD points (pp)''),
     (''eco_cash_pp'', ''Economy cash (pp)''),
     (''eco_pts_pp'', ''Economy points (pp)''),
     (''biz_seats_through'', ''Business seats (through)''),
     (''biz_seats_doh_syd'', ''Business seats (DOH->SYD)'')]"

text \<open>
  The body of \<^verbatim>\<open>for key, label in labels.items()\<close>: the lines it appends to \<^verbatim>\<open>changes\<close>
  (none or one). The arrows of the two DOH labels are written \<open>->\<close> above.
\<close>

definition diff_step :: "state \<Rightarrow> state \<Rightarrow> string \<Rightarrow> string \<Rightarrow> diff_line list" where
  "diff_step current previous key label_arg =
     (let cur = get current key; prev = get previous key in
      if cur = None \<and> prev = None then []
      else if cur \<noteq> prev then
        (let is_price = (str_in ''cash'' key \<or> str_in ''pts'' key) in
         case prev of
           None \<Rightarrow> (case cur of None \<Rightarrow> [] | Some c \<Rightarrow> [NowAvailable label_arg is_price c])
         | Some p \<Rightarrow>
             (case cur of
                None \<Rightarrow> [NoLongerAvailable label_arg]
              | Some c \<Rightarrow>
                  (let diff = c - p;
                       unit = (if str_in ''pts'' key then Pts
                               else if str_in ''seats'' key then Seats else AUD);
                       plus = (diff > 0);
                       emoji = (if diff > 0 \<and> is_price then Red
                                else if diff < 0 \<and> is_price then Green
                                else if diff > 0 \<and> str_in ''seats'' key then Green
                                else Red)
                   in [Changed label_arg (str_in ''cash'' key) p c plus \<bar>diff\<bar> unit emoji])))
      else [])"

fun diff_loop ::
  "state \<Rightarrow> state \<Rightarrow> (string \<times> string) list \<Rightarrow> diff_line list \<Rightarrow> diff_line list" where
  "diff_loop current previous [] changes = changes"
| "diff_loop current previous ((key, label_arg) # rest) changes =
     diff_loop current previous rest (changes @ diff_step current previous key label_arg)"

text \<open>\<^verbatim>\<open>not previous\<close> holds for the empty dict, which is what a first run loads.\<close>

definition build_diff :: "state \<Rightarrow> state \<Rightarrow> diff_line list" where
  "build_diff current previous =
     (if previous = [] then [FirstRun]
      else
        (let changes = diff_loop current previous labels []
         in if changes \<noteq> [] then changes else [NoChanges]))"

section \<open>The selection contract, in the words of the specification\<close>

text \<open>
  The cheapest element of a list under a ranking key, the earliest one among equally
  cheap elements; \<open>None\<close> for the empty list.
\<close>

fun first_min :: "('a \<Rightarrow> 'k::linorder) \<Rightarrow> 'a list \<Rightarrow> 'a option" where
  "first_min key [] = None"
| "first_min key (x # xs) =
     (case first_min key xs of
        None \<Rightarrow> Some x
      | Some y \<Rightarrow> if key x \<le> key y then Some x else Some y)"

text \<open>An offer is on the preferred carrier when its carrier codes include \<^verbatim>\<open>QR\<close>.\<close>

definition preferred :: "'a offer_scheme \<Rightarrow> bool" where
  "preferred r = (''QR'' \<in> set (carrier_codes r))"

text \<open>
  The contract: the cheapest preferred-carrier offer, then the cheapest offer that is not
  on the preferred carrier, each only when there is one.
\<close>

definition selector_spec :: "('a offer_scheme \<Rightarrow> 'k::linorder) \<Rightarrow> 'a offer_scheme list \<Rightarrow> 'a offer_scheme list" where
  "selector_spec key pool =
     (case first_min key (filter preferred pool) of None \<Rightarrow> [] | Some r \<Rightarrow> [r])
     @ (case first_min key (filter (\<lambda>r. \<not> preferred r) pool) of None \<Rightarrow> [] | Some r \<Rightarrow> [r])"

text \<open>
  The candidate pool of a search: the records of the fetched items that pass the
  filters of the loop, in the order of the input.
\<close>

definition cash_pool :: "string \<Rightarrow> flight_offer list \<Rightarrow> cash_offer list" where
  "cash_pool cabin_arg offers =
     concat (map (\<lambda>offer. case cash_record cabin_arg offer of
                             Inr (Some r) \<Rightarrow> [r] | _ \<Rightarrow> []) offers)"

definition reward_pool :: "string \<Rightarrow> seats_item list \<Rightarrow> reward_offer list" where
  "reward_pool cabin_arg data =
     concat (map (\<lambda>item. case reward_record cabin_arg item of
                            Inr (Some r) \<Rightarrow> [r] | _ \<Rightarrow> []) data)"


section \<open>Example data\<close>

text \<open>
  Two one-stop business fares of the fare service, for the concrete instances below: a
  Qatar Airways itinerary at 5600 for two passengers and an Emirates one at 6200.
\<close>

definition example_segment :: "string \<Rightarrow> string \<Rightarrow> string \<Rightarrow> segment" where
  "example_segment code num origin =
     \<lparr> operating_carrierCode = None, carrierCode = code, number = num,
       departure_iataCode = origin, departure_at = ''2026-09-14T10:00:00'',
       arrival_at = ''2026-09-15T06:00:00'' \<rparr>"

definition example_qr :: flight_offer where
  "example_qr =
     \<lparr> itineraries =
         [\<lparr> segments = [example_segment ''QR'' ''150'' ''MAD'',
                         example_segment ''QR'' ''908'' ''DOH''] \<rparr>],
       grandTotal = 5600 \<rparr>"

definition example_ek :: flight_offer where
  "example_ek =
     \<lparr> itineraries =
         [\<lparr> segments = [example_segment ''EK'' ''142'' ''MAD'',
                         example_segment ''EK'' ''414'' ''DXB''] \<rparr>],
       grandTotal = 6200 \<rparr>"

text \<open>
  The number that the \<^verbatim>\<open>if\<close>/\<^verbatim>\<open>elif\<close> chain of \<^verbatim>\<open>price_percentile_label\<close> prints, in closed
  form; the proofs relate it to \<open>reported_percentile\<close>.
\<close>

definition pnum :: "rat \<Rightarrow> rat \<Rightarrow> rat \<Rightarrow> rat \<Rightarrow> rat \<Rightarrow> rat \<Rightarrow> int" where
  "pnum p mn low med hi mx =
     (if p \<le> mn then 10
      else if p \<le> low then 25
      else if p \<le> med then py_int (of_int 25 + (p - low) / max (med - low) 1 * 25)
      else if p \<le> hi then py_int (of_int 50 + (p - med) / max (hi - med) 1 * 25)
      else if p \<le> mx then py_int (of_int 75 + (p - hi) / max (mx - hi) 1 * 25)
      else 95)"

section \<open>Properties of \<^verbatim>\<open>booster_cost\<close>\<close>

lemma BOOSTER_TIERS_eq:
  "BOOSTER_TIERS =
    [1000, 1500, 2000, 2500, 3000, 3500, 4000, 4500, 5000, 6000, 7000, 8000,
     9000, 10000, 11000, 12000, 13000, 14000, 15000, 16000, 17000, 18000, 19000, 20000,
     21000, 22000, 23000, 24000, 25000, 26000, 27000, 28000, 29000, 30000, 35000, 40000,
     45000, 50000, 60000, 70000, 80000, 90000, 100000, 150000, 200000, 250000]"
  by (simp add: BOOSTER_TIERS_def BOOSTER_TABLE_def)

lemma tiers_set: "set BOOSTER_TIERS = fst ` set BOOSTER_TABLE"
  by (simp add: BOOSTER_TIERS_def)

lemma tiers_sorted: "sorted BOOSTER_TIERS"
  by (simp add: BOOSTER_TIERS_def)

lemma prices_nonneg: "map_of BOOSTER_TABLE t = Some p \<Longrightarrow> 0 \<le> p"
  by (auto simp: BOOSTER_TABLE_def split: if_splits)

lemma tier_bounds: "map_of BOOSTER_TABLE t = Some p \<Longrightarrow> 0 < t \<and> t \<le> 250000"
  by (auto simp: BOOSTER_TABLE_def split: if_splits)

lemma cap_is_tier: "250000 \<in> set BOOSTER_TIERS"
  by (simp add: tiers_set BOOSTER_TABLE_def)

lemma tier_has_price: "t \<in> set BOOSTER_TIERS \<Longrightarrow> \<exists>p. map_of BOOSTER_TABLE t = Some p"
  by (metis tiers_set map_of_eq_None_iff not_None_eq)

lemma price_is_tier: "map_of BOOSTER_TABLE t = Some p \<Longrightarrow> t \<in> set BOOSTER_TIERS"
  by (metis tiers_set map_of_eq_None_iff option.distinct(1))

lemma find_sorted_member:
  "sorted xs \<Longrightarrow> t \<in> set xs \<Longrightarrow> find (\<lambda>x. t \<le> x) xs = Some (t::int)"
  by (induction xs) auto

lemma find_sorted_least:
  "sorted xs \<Longrightarrow> find (\<lambda>x. c \<le> x) xs = Some (t::int) \<Longrightarrow> y \<in> set xs \<Longrightarrow> c \<le> y \<Longrightarrow> t \<le> y"
  by (induction xs) (auto split: if_splits)

lemma next_tier_member: "t \<in> set BOOSTER_TIERS \<Longrightarrow> next_tier t = t"
  by (simp add: next_tier_def find_sorted_member tiers_sorted)

lemma next_tier_in: "next_tier c \<in> set BOOSTER_TIERS"
  by (auto simp: next_tier_def cap_is_tier find_Some_iff split: option.splits)

lemma next_tier_ge: "c \<le> 250000 \<Longrightarrow> c \<le> next_tier c"
  using cap_is_tier
  by (auto simp: next_tier_def find_None_iff find_Some_iff split: option.splits)

lemma next_tier_least:
  "c \<le> 250000 \<Longrightarrow> y \<in> set BOOSTER_TIERS \<Longrightarrow> c \<le> y \<Longrightarrow> next_tier c \<le> y"
  using cap_is_tier find_sorted_least[OF tiers_sorted, of c _ y]
  by (auto simp: next_tier_def find_None_iff split: option.splits)

text \<open>
  The loop invariant: from any accumulator state the loop returns, the points bought grow
  by at least the outstanding requirement, and the cost does not shrink.
\<close>

lemma booster_loop_total:
  "\<exists>b c. booster_loop tc tb r = Inr (b, c) \<and> tb + max r 0 \<le> b \<and> tc \<le> c"
proof (induction tc tb r rule: booster_loop.induct)
  case (1 total_cost total_bought remaining)
  show ?case
  proof (cases "remaining > 0")
    case False
    then show ?thesis by simp
  next
    case True
    define chunk where "chunk = min remaining 250000"
    define tier where "tier = next_tier chunk"
    have ct: "chunk \<le> tier"
      unfolding tier_def by (rule next_tier_ge) (simp add: chunk_def)
    obtain price where p: "map_of BOOSTER_TABLE tier = Some price"
      using tier_has_price next_tier_in unfolding tier_def by blast
    have pos: "0 \<le> price" using p by (rule prices_nonneg)
    from "1.IH"[OF True chunk_def tier_def p]
    obtain b c where
      r: "booster_loop (total_cost + price) (total_bought + tier) (remaining - chunk)
            = Inr (b, c)"
      and b: "total_bought + tier + max (remaining - chunk) 0 \<le> b"
      and c: "total_cost + price \<le> c" by blast
    have "booster_loop total_cost total_bought remaining = Inr (b, c)"
      using True p r
      by (simp add: chunk_def tier_def Let_def del: booster_loop.simps
            add: booster_loop.simps[of total_cost total_bought remaining])
    moreover have "total_bought + max remaining 0 \<le> b"
      using b ct True by (simp add: chunk_def)
    moreover have "total_cost \<le> c" using c pos by simp
    ultimately show ?thesis by blast
  qed
qed

lemma booster_cost_single_chunk:
  assumes "0 < n" "n \<le> 250000" "map_of BOOSTER_TABLE (next_tier n) = Some p"
  shows "booster_cost n = Inr (next_tier n, p)"
  using assms by (simp add: booster_cost_def min_def)

text \<open>
  C1. For every non-negative \<open>points_needed\<close>, \<^verbatim>\<open>booster_cost\<close> returns a pair
  \<open>(points_purchased, purchase_price)\<close> with \<open>points_purchased \<ge> points_needed\<close> and
  \<open>purchase_price \<ge> 0\<close>; and \<^verbatim>\<open>booster_cost(0)\<close> is \<open>(0, 0)\<close>.
\<close>

theorem booster_cost_covers_need:
  "(0 \<le> points_needed \<longrightarrow>
      (\<exists>points_purchased purchase_price.
         booster_cost points_needed = Inr (points_purchased, purchase_price)
         \<and> points_needed \<le> points_purchased \<and> 0 \<le> purchase_price))
   \<and> booster_cost 0 = Inr (0, 0)"
proof -
  have "booster_cost 0 = Inr (0, 0)" by (simp add: booster_cost_def)
  moreover have "0 \<le> points_needed \<Longrightarrow>
      \<exists>b c. booster_cost points_needed = Inr (b, c) \<and> points_needed \<le> b \<and> 0 \<le> c"
    using booster_loop_total[of 0 0 points_needed] by (auto simp: booster_cost_def)
  ultimately show ?thesis by blast
qed

theorem booster_cost_covers_need_witness:
  "(0::int) \<le> 300000 \<and>
   (\<exists>points_purchased purchase_price.
       booster_cost 300000 = Inr (points_purchased, purchase_price)
       \<and> 300000 \<le> points_purchased \<and> 0 \<le> purchase_price)"
  using booster_cost_covers_need[of 300000] by simp

text \<open>
  C4, as the code has it. For every \<open>points_needed\<close> that is a tier of the purchase table,
  \<^verbatim>\<open>booster_cost\<close> returns that tier and its listed price, with no rounding up to the next
  tier (50,000 is such a tier). A positive requirement of at most 250,000 points that is not a tier
  is rounded up to the smallest tier that covers it. 135,000 is not a tier of the table:
  it is served by the 150,000 tier.
\<close>

theorem booster_cost_exact_tier:
  "(map_of BOOSTER_TABLE t = Some p \<longrightarrow> booster_cost t = Inr (t, p))
   \<and> (0 < n \<and> n \<le> 250000 \<longrightarrow>
        (\<exists>tier price. booster_cost n = Inr (tier, price)
           \<and> map_of BOOSTER_TABLE tier = Some price \<and> n \<le> tier
           \<and> (\<forall>t' \<in> set BOOSTER_TIERS. n \<le> t' \<longrightarrow> tier \<le> t')))"
proof (intro conjI impI)
  assume p: "map_of BOOSTER_TABLE t = Some p"
  have "next_tier t = t" using price_is_tier[OF p] by (rule next_tier_member)
  then show "booster_cost t = Inr (t, p)"
    using booster_cost_single_chunk[of t p] tier_bounds[OF p] p by simp
next
  assume n: "0 < n \<and> n \<le> 250000"
  obtain price where p: "map_of BOOSTER_TABLE (next_tier n) = Some price"
    using tier_has_price next_tier_in by blast
  have "booster_cost n = Inr (next_tier n, price)"
    using booster_cost_single_chunk n p by blast
  moreover have "n \<le> next_tier n" using n by (simp add: next_tier_ge)
  moreover have "\<forall>t' \<in> set BOOSTER_TIERS. n \<le> t' \<longrightarrow> next_tier n \<le> t'"
    using n by (simp add: next_tier_least)
  ultimately show "\<exists>tier price. booster_cost n = Inr (tier, price)
           \<and> map_of BOOSTER_TABLE tier = Some price \<and> n \<le> tier
           \<and> (\<forall>t' \<in> set BOOSTER_TIERS. n \<le> t' \<longrightarrow> tier \<le> t')"
    using p by blast
qed

theorem booster_cost_exact_tier_witness:
  "map_of BOOSTER_TABLE 50000 = Some 1172 \<and> booster_cost 50000 = Inr (50000, 1172)
   \<and> (0::int) < 135000 \<and> (135000::int) \<le> 250000
   \<and> (\<exists>tier price. booster_cost 135000 = Inr (tier, price)
         \<and> map_of BOOSTER_TABLE tier = Some price \<and> 135000 \<le> tier
         \<and> (\<forall>t' \<in> set BOOSTER_TIERS. 135000 \<le> t' \<longrightarrow> tier \<le> t'))"
proof -
  have h: "map_of BOOSTER_TABLE 50000 = Some 1172" by (simp add: BOOSTER_TABLE_def)
  show ?thesis
    using h booster_cost_exact_tier[of 50000 1172 135000] by simp
qed

theorem booster_cost_135000_rounds_up:
  "map_of BOOSTER_TABLE 135000 = None \<and> booster_cost 135000 = Inr (150000, 3510)"
proof -
  have a: "map_of BOOSTER_TABLE 135000 = None" by (simp add: BOOSTER_TABLE_def)
  have b: "next_tier 135000 = 150000" by (simp add: next_tier_def BOOSTER_TIERS_eq)
  have c: "map_of BOOSTER_TABLE 150000 = Some 3510" by (simp add: BOOSTER_TABLE_def)
  show ?thesis using a booster_cost_single_chunk[of 135000 3510] b c by simp
qed

text \<open>
  C5, as the code has it. For every negative \<open>points_needed\<close> the loop body never runs and
  \<^verbatim>\<open>booster_cost\<close> returns \<open>(0, 0)\<close>; it raises nothing.
\<close>

theorem booster_cost_negative:
  "points_needed < 0 \<Longrightarrow> booster_cost points_needed = Inr (0, 0)"
  by (simp add: booster_cost_def)

theorem booster_cost_negative_witness:
  "(- 5 :: int) < 0 \<and> booster_cost (- 5) = Inr (0, 0)"
  using booster_cost_negative[of "- 5"] by simp

theorem booster_cost_minus_one_returns:
  "booster_cost (- 1) = Inr (0, 0)"
  by (simp add: booster_cost_def)

section \<open>Properties of \<^verbatim>\<open>price_percentile_label\<close>\<close>

lemma interpolate_eq:
  "interpolate base p a b = Inr (py_int (of_int base + (p - a) / max (b - a) 1 * 25))"
  by (simp add: interpolate_def py_div_def max_def)

lemma estimate_eq:
  "estimate p mn low med hi mx =
     Inr (if p \<le> mn then (Approx 10, Green)
          else if p \<le> low then (Approx 25, Green)
          else if p \<le> med then
            (Approx (py_int (25 + (p - low) / max (med - low) 1 * 25)), Green)
          else if p \<le> hi then
            (Approx (py_int (50 + (p - med) / max (hi - med) 1 * 25)), Yellow)
          else if p \<le> mx then
            (Approx (py_int (75 + (p - hi) / max (mx - hi) 1 * 25)), Red)
          else (Over 95, Red))"
  by (simp add: estimate_def interpolate_eq)

lemma label_eq:
  assumes "map_of d ''min'' = Some mn" "map_of d ''low'' = Some low"
    "map_of d ''median'' = Some med" "map_of d ''high'' = Some hi"
    "map_of d ''max'' = Some mx" "med \<noteq> 0"
  shows "price_percentile_label p (Some d) =
     (case estimate p mn low med hi mx of
        Inl e \<Rightarrow> Inl e
      | Inr (pct, emoji) \<Rightarrow> Inr (Context pct (py_round \<bar>p - med\<bar>) (p - med > 0) emoji))"
proof -
  have "d \<noteq> []" using assms(1) by auto
  then have "\<not> no_median (Some d)" using assms(3,6) by (simp add: no_median_def)
  then show ?thesis using assms
    by (simp add: price_percentile_label_def subscript_def Let_def split: sum.splits prod.splits)
qed

lemma py_int_bounds:
  assumes "0 \<le> r" "r \<le> 1"
  shows "base \<le> py_int (of_int base + r * 25)" "py_int (of_int base + r * 25) \<le> base + 25"
     "0 \<le> base \<Longrightarrow> py_int (of_int base + r * 25) = \<lfloor>of_int base + r * 25 :: rat\<rfloor>"
proof -
  have nn: "0 \<le> base \<Longrightarrow> (0::rat) \<le> of_int base + r * 25" using assms by simp
  show "0 \<le> base \<Longrightarrow> py_int (of_int base + r * 25) = \<lfloor>of_int base + r * 25 :: rat\<rfloor>"
    using nn by (simp add: py_int_def)
  have a: "(of_int base :: rat) \<le> of_int base + r * 25" using assms by simp
  have b: "of_int base + r * 25 \<le> (of_int (base + 25) :: rat)" using assms by simp
  have "base \<le> \<lfloor>of_int base + r * 25 :: rat\<rfloor>" using a by (simp add: le_floor_iff)
  moreover have "base \<le> \<lceil>of_int base + r * 25 :: rat\<rceil>" using a
    by (meson ceiling_mono of_int_le_iff order_trans le_of_int_ceiling)
  ultimately show "base \<le> py_int (of_int base + r * 25)" by (simp add: py_int_def)
  have "\<lfloor>of_int base + r * 25 :: rat\<rfloor> \<le> base + 25" using b
    by (metis floor_mono floor_of_int)
  moreover have "\<lceil>of_int base + r * 25 :: rat\<rceil> \<le> base + 25" using b
    by (metis ceiling_mono ceiling_of_int)
  ultimately show "py_int (of_int base + r * 25) \<le> base + 25" by (simp add: py_int_def)
qed

lemma ratio_range:
  assumes "a < p" "p \<le> (b::rat)"
  shows "0 \<le> (p - a) / max (b - a) 1" "(p - a) / max (b - a) 1 \<le> 1"
proof -
  have m: "0 < max (b - a) 1" by simp
  show "0 \<le> (p - a) / max (b - a) 1" using assms m by simp
  have "p - a \<le> max (b - a) 1" using assms by simp
  then show "(p - a) / max (b - a) 1 \<le> 1" using m by (simp add: divide_le_eq_1)
qed

lemma py_int_mono: "x \<le> y \<Longrightarrow> py_int x \<le> py_int y"
proof -
  assume xy: "x \<le> y"
  consider "0 \<le> x" | "x < 0" "0 \<le> y" | "x < 0" "y < 0" by linarith
  then show ?thesis
  proof cases
    case 1
    then show ?thesis using xy by (simp add: py_int_def floor_mono)
  next
    case 2
    have "\<lceil>x\<rceil> \<le> 0" using 2(1) by (simp add: ceiling_le_iff)
    moreover have "0 \<le> \<lfloor>y\<rfloor>" using 2(2) by simp
    ultimately have "\<lceil>x\<rceil> \<le> \<lfloor>y\<rfloor>" by linarith
    then show ?thesis using 2 by (simp add: py_int_def)
  next
    case 3
    then show ?thesis using xy by (simp add: py_int_def ceiling_mono)
  qed
qed

lemma interp_mono:
  assumes "p1 \<le> (p2::rat)"
  shows "py_int (of_int base + (p1 - a) / max (b - a) 1 * 25)
           \<le> py_int (of_int base + (p2 - a) / max (b - a) 1 * 25)"
proof (rule py_int_mono)
  have m: "0 < max (b - a) 1" by simp
  have "(p1 - a) / max (b - a) 1 \<le> (p2 - a) / max (b - a) 1"
    using assms m by (simp add: divide_right_mono)
  then have "(p1 - a) / max (b - a) 1 * 25 \<le> (p2 - a) / max (b - a) 1 * 25"
    by (rule mult_right_mono) simp
  then show "of_int base + (p1 - a) / max (b - a) 1 * 25
           \<le> of_int base + (p2 - a) / max (b - a) 1 * 25" by (rule add_left_mono)
qed

lemma interp_bounds:
  assumes "a < p" "p \<le> (b::rat)"
  shows "base \<le> py_int (of_int base + (p - a) / max (b - a) 1 * 25)"
    and "py_int (of_int base + (p - a) / max (b - a) 1 * 25) \<le> base + 25"
  using py_int_bounds(1,2)[OF ratio_range[OF assms], of base] by simp_all

lemma reported_eq:
  assumes "map_of d ''min'' = Some mn" "map_of d ''low'' = Some low"
    "map_of d ''median'' = Some med" "map_of d ''high'' = Some hi"
    "map_of d ''max'' = Some mx" "med \<noteq> 0"
  shows "reported_percentile (price_percentile_label p (Some d)) = Some (pnum p mn low med hi mx)"
  by (simp add: label_eq[OF assms] estimate_eq pnum_def)

lemma pnum_mono:
  assumes v: "mn \<le> low" "low \<le> med" "med \<le> hi" "hi \<le> mx" and le: "p1 \<le> p2"
  shows "pnum p1 mn low med hi mx \<le> pnum p2 mn low med hi mx
         \<or> (mx < p2 \<and> hi < p1 \<and> p1 \<le> mx \<and> pnum p2 mn low med hi mx = 95
            \<and> 95 < pnum p1 mn low med hi mx \<and> pnum p1 mn low med hi mx \<le> 100)"
proof -
  note b3 = interp_bounds[of low _ med 25]
  note b4 = interp_bounds[of med _ hi 50]
  note b5 = interp_bounds[of hi _ mx 75]
  consider (a) "p1 \<le> mn" | (b) "mn < p1" "p1 \<le> low" | (c) "low < p1" "p1 \<le> med"
    | (d) "med < p1" "p1 \<le> hi" | (e) "hi < p1" "p1 \<le> mx" | (f) "mx < p1"
    using v by linarith
  then show ?thesis
  proof cases
    case a
    have "10 \<le> pnum p2 mn low med hi mx"
      using b3[of p2] b4[of p2] b5[of p2] by (auto simp: pnum_def)
    then show ?thesis using a by (simp add: pnum_def)
  next
    case b
    then have 1: "pnum p1 mn low med hi mx = 25" using v by (simp add: pnum_def)
    have "25 \<le> pnum p2 mn low med hi mx"
      using b le b3[of p2] b4[of p2] b5[of p2] by (auto simp: pnum_def)
    then show ?thesis using 1 by simp
  next
    case c
    then have 1: "pnum p1 mn low med hi mx = py_int (of_int 25 + (p1 - low) / max (med - low) 1 * 25)"
      using v by (auto simp: pnum_def)
    have 2: "pnum p1 mn low med hi mx \<le> 50" using b3(2)[OF c] 1 by simp
    consider "p2 \<le> med" | "med < p2" by linarith
    then show ?thesis
    proof cases
      case 1
      then have "pnum p2 mn low med hi mx = py_int (of_int 25 + (p2 - low) / max (med - low) 1 * 25)"
        using c le v by (auto simp: pnum_def)
      then show ?thesis using \<open>pnum p1 mn low med hi mx = _\<close> interp_mono[OF le, of 25 low med] by simp
    next
      case 2
      then have "50 \<le> pnum p2 mn low med hi mx"
        using v b4[of p2] b5[of p2] by (auto simp: pnum_def)
      then show ?thesis using \<open>pnum p1 mn low med hi mx \<le> 50\<close> by simp
    qed
  next
    case d
    then have 1: "pnum p1 mn low med hi mx = py_int (of_int 50 + (p1 - med) / max (hi - med) 1 * 25)"
      using v by (auto simp: pnum_def)
    have 2: "pnum p1 mn low med hi mx \<le> 75" using b4(2)[OF d] 1 by simp
    consider "p2 \<le> hi" | "hi < p2" by linarith
    then show ?thesis
    proof cases
      case 1
      then have "pnum p2 mn low med hi mx = py_int (of_int 50 + (p2 - med) / max (hi - med) 1 * 25)"
        using d le v by (auto simp: pnum_def)
      then show ?thesis using \<open>pnum p1 mn low med hi mx = _\<close> interp_mono[OF le, of 50 med hi] by simp
    next
      case 2
      then have "75 \<le> pnum p2 mn low med hi mx"
        using v b5[of p2] by (auto simp: pnum_def)
      then show ?thesis using \<open>pnum p1 mn low med hi mx \<le> 75\<close> by simp
    qed
  next
    case e
    then have 1: "pnum p1 mn low med hi mx = py_int (of_int 75 + (p1 - hi) / max (mx - hi) 1 * 25)"
      using v by (auto simp: pnum_def)
    have 2: "pnum p1 mn low med hi mx \<le> 100" using b5(2)[OF e] 1 by simp
    consider "p2 \<le> mx" | "mx < p2" by linarith
    then show ?thesis
    proof cases
      case 1
      then have "pnum p2 mn low med hi mx = py_int (of_int 75 + (p2 - hi) / max (mx - hi) 1 * 25)"
        using e le v by (auto simp: pnum_def)
      then show ?thesis using \<open>pnum p1 mn low med hi mx = _\<close> interp_mono[OF le, of 75 hi mx] by simp
    next
      case 2
      then have "pnum p2 mn low med hi mx = 95" using v by (auto simp: pnum_def)
      then show ?thesis using 2 e \<open>pnum p1 mn low med hi mx \<le> 100\<close> by auto
    qed
  next
    case f
    then have "pnum p1 mn low med hi mx = 95" "pnum p2 mn low med hi mx = 95"
      using v le by (auto simp: pnum_def)
    then show ?thesis by simp
  qed
qed


text \<open>
  C6, as the code has it. For a fixed distribution with all five fields, a non-zero median
  and \<open>min \<le> low \<le> median \<le> high \<le> max\<close>, the percentile number reported by
  \<^verbatim>\<open>price_percentile_label\<close> does not decrease when the price increases, over all five
  branches and their boundaries up to \<open>max\<close>. The one exception is the step to the fixed
  \<^verbatim>\<open>">95th"\<close> label: a price above \<open>max\<close> reports 95, while a price in the top branch
  (\<open>high < price \<le> max\<close>) may already report 96 to 100.
\<close>

theorem percentile_monotone_up_to_max:
  assumes "map_of d ''min'' = Some mn" "map_of d ''low'' = Some low"
    "map_of d ''median'' = Some med" "map_of d ''high'' = Some hi"
    "map_of d ''max'' = Some mx" "med \<noteq> 0"
    and "mn \<le> low" "low \<le> med" "med \<le> hi" "hi \<le> mx"
    and "p1 \<le> p2"
  shows "\<exists>a b. reported_percentile (price_percentile_label p1 (Some d)) = Some a
           \<and> reported_percentile (price_percentile_label p2 (Some d)) = Some b
           \<and> (a \<le> b \<or> (mx < p2 \<and> hi < p1 \<and> p1 \<le> mx \<and> b = 95 \<and> 95 < a \<and> a \<le> 100))"
  using reported_eq[OF assms(1-6)] pnum_mono[OF assms(7-11)] by simp

theorem percentile_monotone_up_to_max_witness:
  "\<exists>a b. reported_percentile (price_percentile_label 2800
             (Some [(''min'', 2000), (''max'', 4000), (''median'', 2700),
                    (''low'', 2400), (''high'', 3200)])) = Some a
         \<and> reported_percentile (price_percentile_label 3900
             (Some [(''min'', 2000), (''max'', 4000), (''median'', 2700),
                    (''low'', 2400), (''high'', 3200)])) = Some b
         \<and> (a \<le> b \<or> ((4000::rat) < 3900 \<and> (3200::rat) < 2800 \<and> (2800::rat) \<le> 4000
                        \<and> b = 95 \<and> 95 < a \<and> a \<le> 100))"
  using percentile_monotone_up_to_max[of
      "[(''min'', 2000), (''max'', 4000), (''median'', 2700), (''low'', 2400), (''high'', 3200)]"
      2000 2400 2700 3200 4000 2800 3900]
  by simp

theorem percentile_drops_above_max:
  "reported_percentile (price_percentile_label 4000
      (Some [(''min'', 2000), (''max'', 4000), (''median'', 2700),
             (''low'', 2400), (''high'', 3200)])) = Some 100
   \<and> reported_percentile (price_percentile_label 4001
      (Some [(''min'', 2000), (''max'', 4000), (''median'', 2700),
             (''low'', 2400), (''high'', 3200)])) = Some 95"
  by (simp add: price_percentile_label_def no_median_def subscript_def estimate_def
        interpolate_def py_div_def py_int_def)




text \<open>
  C8. For every price, \<^verbatim>\<open>price_percentile_label\<close> applied to an absent distribution, or to
  one that has no median, returns the fixed "data unavailable" marker; it raises nothing
  and reports no percentile.
\<close>

theorem label_unavailable_without_median:
  "price_percentile_label p None = Inr Unavailable
   \<and> (map_of d ''median'' = None \<longrightarrow> price_percentile_label p (Some d) = Inr Unavailable)"
  by (simp add: price_percentile_label_def no_median_def)

theorem label_unavailable_without_median_witness:
  "map_of [(''min'', 2000 :: rat), (''max'', 4000)] ''median'' = None
   \<and> price_percentile_label 2800 (Some [(''min'', 2000), (''max'', 4000)]) = Inr Unavailable"
  using label_unavailable_without_median[of 2800 "[(''min'', 2000), (''max'', 4000)]"]
  by simp

text \<open>
  C10. For every distribution whose median equals 0 (fully populated or not), and every
  price, \<^verbatim>\<open>price_percentile_label\<close> returns the "data unavailable" marker: the median is
  tested for truthiness, not for presence.
\<close>

theorem zero_median_is_unavailable:
  "map_of d ''median'' = Some 0 \<Longrightarrow> price_percentile_label p (Some d) = Inr Unavailable"
  by (simp add: price_percentile_label_def no_median_def)

theorem zero_median_is_unavailable_witness:
  "map_of [(''min'', 0 :: rat), (''max'', 900), (''median'', 0), (''low'', 0), (''high'', 400)]
      ''median'' = Some 0
   \<and> price_percentile_label 350
       (Some [(''min'', 0), (''max'', 900), (''median'', 0), (''low'', 0), (''high'', 400)])
     = Inr Unavailable"
  using zero_median_is_unavailable[of
      "[(''min'', 0), (''max'', 900), (''median'', 0), (''low'', 0), (''high'', 400)]" 350]
  by simp

section \<open>Properties of \<^verbatim>\<open>build_diff\<close>\<close>

lemma diff_step_same: "diff_step S S key label_arg = []"
  by (simp add: diff_step_def Let_def)

lemma diff_loop_same: "diff_loop S S ls changes = changes"
  by (induction ls arbitrary: changes) (auto simp: diff_step_same)

text \<open>
  C9. For every state \<open>S\<close>, \<^verbatim>\<open>build_diff(S, absent)\<close> returns exactly one entry, the
  "first run" sentinel, where an absent previous state is the empty dict that a first run
  loads. For every snapshot \<open>S\<close> (a non-empty dict, as every result of
  \<^verbatim>\<open>summarise_for_state\<close> is), \<^verbatim>\<open>build_diff(S, S)\<close> returns exactly one entry, the
  "no changes" sentinel.
\<close>

theorem build_diff_sentinels:
  "build_diff S [] = [FirstRun]
   \<and> (S \<noteq> [] \<longrightarrow> build_diff S S = [NoChanges])
   \<and> build_diff
        (summarise_for_state cash_biz pts_biz cash_biz_mad_doh pts_biz_mad_doh
           cash_biz_doh_syd pts_biz_doh_syd cash_eco pts_eco)
        (summarise_for_state cash_biz pts_biz cash_biz_mad_doh pts_biz_mad_doh
           cash_biz_doh_syd pts_biz_doh_syd cash_eco pts_eco) = [NoChanges]"
  by (simp add: build_diff_def diff_loop_same summarise_for_state_def)

theorem build_diff_sentinels_witness:
  "[(''biz_cash_pp'', Some 2800), (''eco_pts_pp'', None)] \<noteq> []
   \<and> build_diff [(''biz_cash_pp'', Some 2800), (''eco_pts_pp'', None)]
        [(''biz_cash_pp'', Some 2800), (''eco_pts_pp'', None)] = [NoChanges]"
  using build_diff_sentinels[of "[(''biz_cash_pp'', Some 2800), (''eco_pts_pp'', None)]"]
  by simp

section \<open>Properties of the selection\<close>

lemma first_min_None: "first_min key xs = None \<longleftrightarrow> xs = []"
  by (induction xs) (auto split: option.splits)

lemma first_min_split:
  "first_min key xs = Some r \<Longrightarrow>
     \<exists>ys zs. xs = ys @ r # zs \<and> (\<forall>y \<in> set ys. key r < key y) \<and> (\<forall>z \<in> set zs. key r \<le> key z)"
proof (induction xs arbitrary: r)
  case Nil
  then show ?case by simp
next
  case (Cons x xs)
  show ?case
  proof (cases "first_min key xs")
    case None
    then have "xs = []" by (simp add: first_min_None)
    with Cons.prems None have "x # xs = [] @ r # []" by simp
    then show ?thesis by (metis empty_iff list.set(1))
  next
    case (Some y)
    from Cons.IH[OF Some] obtain ys zs where
      s: "xs = ys @ y # zs" "\<forall>a \<in> set ys. key y < key a" "\<forall>z \<in> set zs. key y \<le> key z"
      by blast
    show ?thesis
    proof (cases "key x \<le> key y")
      case True
      then have rx: "r = x" using Cons.prems Some by simp
      have "\<forall>z \<in> set xs. key x \<le> key z" using s True by auto
      then have "x # xs = [] @ r # xs \<and> (\<forall>y \<in> set []. key r < key y) \<and> (\<forall>z \<in> set xs. key r \<le> key z)"
        using rx by simp
      then show ?thesis by blast
    next
      case False
      then have ry: "r = y" using Cons.prems Some by simp
      have "x # xs = (x # ys) @ r # zs" using s ry by simp
      moreover have "\<forall>a \<in> set (x # ys). key r < key a" using s False ry by auto
      moreover have "\<forall>z \<in> set zs. key r \<le> key z" using s ry by simp
      ultimately show ?thesis by blast
    qed
  qed
qed

lemma head_sort_key:
  "(case sort_key key xs of [] \<Rightarrow> None | y # _ \<Rightarrow> Some y) = first_min key xs"
proof (induction xs)
  case Nil
  then show ?case by simp
next
  case (Cons x xs)
  then show ?case by (cases "sort_key key xs") (auto split: option.splits)
qed

lemma pick_first:
  "(if sort_key key xs \<noteq> [] then [sort_key key xs ! 0] else [])
     = (case first_min key xs of None \<Rightarrow> [] | Some r \<Rightarrow> [r])"
proof (cases "sort_key key xs")
  case Nil
  then have "first_min key xs = None" using head_sort_key[of key xs] by simp
  then show ?thesis using Nil by simp
next
  case (Cons y ys)
  then have "first_min key xs = Some y" using head_sort_key[of key xs] by simp
  then show ?thesis using Cons by simp
qed


lemma cash_record_error: "cash_record c offer = Inl e \<Longrightarrow> e = IndexError"
  by (auto simp: cash_record_def Let_def split: if_splits)

lemma cash_record_preferred: "cash_record c offer = Inr (Some r) \<Longrightarrow> is_qatar r = preferred r"
  by (auto simp: cash_record_def Let_def preferred_def split: if_splits)

lemma cash_pool_Cons:
  "cash_pool c (offer # rest) =
     (case cash_record c offer of Inr (Some r) \<Rightarrow> [r] | _ \<Rightarrow> []) @ cash_pool c rest"
  by (simp add: cash_pool_def)

lemma cash_pool_preferred: "r \<in> set (cash_pool c offers) \<Longrightarrow> is_qatar r = preferred r"
  by (induction offers)
     (auto simp: cash_pool_def cash_record_preferred split: sum.splits option.splits)

lemma cash_loop_result:
  "cash_loop c offers qs os = Inr (qs', os') \<Longrightarrow>
     qs' = qs @ filter is_qatar (cash_pool c offers)
     \<and> os' = os @ filter (\<lambda>r. \<not> is_qatar r) (cash_pool c offers)"
proof (induction offers arbitrary: qs os)
  case Nil
  then show ?case by (simp add: cash_pool_def)
next
  case (Cons offer rest)
  show ?case
  proof (cases "cash_record c offer")
    case (Inl e)
    then show ?thesis using Cons.prems by simp
  next
    case (Inr opt)
    show ?thesis
    proof (cases opt)
      case None
      then show ?thesis using Cons.prems Inr Cons.IH[of qs os] by (simp add: cash_pool_Cons)
    next
      case (Some r)
      show ?thesis
      proof (cases "is_qatar r")
        case True
        then show ?thesis
          using Cons.prems Inr Some Cons.IH[of "qs @ [r]" os] by (simp add: cash_pool_Cons)
      next
        case False
        then show ?thesis
          using Cons.prems Inr Some Cons.IH[of qs "os @ [r]"] by (simp add: cash_pool_Cons)
      qed
    qed
  qed
qed

lemma cash_loop_returns:
  "\<forall>offer \<in> set offers. cash_record c offer \<noteq> Inl IndexError \<Longrightarrow>
     \<exists>qs' os'. cash_loop c offers qs os = Inr (qs', os')"
proof (induction offers arbitrary: qs os)
  case Nil
  then show ?case by simp
next
  case (Cons offer rest)
  then have ih: "\<And>qs os. \<exists>qs' os'. cash_loop c rest qs os = Inr (qs', os')" by simp
  have "cash_record c offer \<noteq> Inl IndexError" using Cons.prems by simp
  then obtain opt where "cash_record c offer = Inr opt"
    using cash_record_error by (cases "cash_record c offer") auto
  then show ?case using ih by (cases opt) auto
qed

lemma filter_preferred_cash:
  "filter is_qatar (cash_pool c offers) = filter preferred (cash_pool c offers)"
  "filter (\<lambda>r. \<not> is_qatar r) (cash_pool c offers) = filter (\<lambda>r. \<not> preferred r) (cash_pool c offers)"
  by (rule filter_cong; simp add: cash_pool_preferred)+

lemma search_cash_fares_spec:
  assumes "search_cash_fares c offers = Inr rs"
  shows "rs = selector_spec price_total (cash_pool c offers)"
proof -
  obtain qs' os' where l: "cash_loop c offers [] [] = Inr (qs', os')"
    using assms by (auto simp: search_cash_fares_def split: sum.splits)
  from cash_loop_result[OF l] have
    qs: "qs' = filter preferred (cash_pool c offers)"
    and os: "os' = filter (\<lambda>r. \<not> preferred r) (cash_pool c offers)"
    by (simp_all add: filter_preferred_cash)
  show ?thesis
    using assms l by (simp add: search_cash_fares_def Let_def pick_first selector_spec_def qs os)
qed

lemma search_cash_fares_returns:
  assumes "\<forall>offer \<in> set offers. cash_record c offer \<noteq> Inl IndexError"
  shows "search_cash_fares c offers = Inr (selector_spec price_total (cash_pool c offers))"
proof -
  obtain qs' os' where "cash_loop c offers [] [] = Inr (qs', os')"
    using cash_loop_returns[OF assms] by blast
  then obtain rs where "search_cash_fares c offers = Inr rs"
    by (simp add: search_cash_fares_def Let_def)
  then show ?thesis using search_cash_fares_spec by blast
qed

lemma booster_cost_returns: "\<exists>b c. booster_cost n = Inr (b, c)"
  using booster_loop_total[of 0 0 n] by (auto simp: booster_cost_def)

lemma reward_record_returns: "\<exists>opt. reward_record c item = Inr opt"
  using booster_cost_returns[of "JMileageCost item * PASSENGERS"]
    booster_cost_returns[of "YMileageCost item * PASSENGERS"]
  by (auto simp: reward_record_def Let_def)

lemma reward_record_preferred: "reward_record c item = Inr (Some r) \<Longrightarrow> is_qatar r = preferred r"
  by (auto simp: reward_record_def Let_def preferred_def split: if_splits sum.splits prod.splits)

lemma reward_pool_Cons:
  "reward_pool c (item # rest) =
     (case reward_record c item of Inr (Some r) \<Rightarrow> [r] | _ \<Rightarrow> []) @ reward_pool c rest"
  by (simp add: reward_pool_def)

lemma reward_pool_preferred: "r \<in> set (reward_pool c data) \<Longrightarrow> is_qatar r = preferred r"
  by (induction data)
     (auto simp: reward_pool_def reward_record_preferred split: sum.splits option.splits)

lemma reward_loop_result:
  "reward_loop c data qs os =
     Inr (qs @ filter is_qatar (reward_pool c data),
          os @ filter (\<lambda>r. \<not> is_qatar r) (reward_pool c data))"
proof (induction data arbitrary: qs os)
  case Nil
  then show ?case by (simp add: reward_pool_def)
next
  case (Cons item rest)
  obtain opt where r: "reward_record c item = Inr opt" using reward_record_returns by blast
  show ?case
  proof (cases opt)
    case None
    then show ?thesis using r Cons.IH[of qs os] by (simp add: reward_pool_Cons)
  next
    case (Some x)
    then show ?thesis
      using r Cons.IH[of "qs @ [x]" os] Cons.IH[of qs "os @ [x]"] by (simp add: reward_pool_Cons)
  qed
qed

lemma filter_preferred_reward:
  "filter is_qatar (reward_pool c data) = filter preferred (reward_pool c data)"
  "filter (\<lambda>r. \<not> is_qatar r) (reward_pool c data) = filter (\<lambda>r. \<not> preferred r) (reward_pool c data)"
  by (rule filter_cong; simp add: reward_pool_preferred)+

lemma search_velocity_seats_spec:
  "search_velocity_seats c data = Inr (selector_spec points_pp (reward_pool c data))"
  by (simp add: search_velocity_seats_def reward_loop_result Let_def pick_first
        selector_spec_def filter_preferred_reward)

lemma selector_spec_length: "length (selector_spec key pool) \<le> 2"
  by (simp add: selector_spec_def split: option.splits)

lemma selector_spec_only_others:
  assumes "pool \<noteq> []" "\<forall>r \<in> set pool. \<not> preferred r"
  shows "\<exists>r. selector_spec key pool = [r] \<and> \<not> preferred r \<and> first_min key pool = Some r"
proof -
  have f: "filter preferred pool = []" "filter (\<lambda>r. \<not> preferred r) pool = pool"
    using assms(2) by (simp_all add: filter_empty_conv)
  obtain r where r: "first_min key pool = Some r"
    using assms(1) first_min_None[of key pool] by (cases "first_min key pool") auto
  then have "r \<in> set pool" using first_min_split[OF r] by auto
  then show ?thesis using f r assms(2) by (simp add: selector_spec_def)
qed

lemma selector_spec_head:
  "(case selector_spec key pool of [] \<Rightarrow> None | r # _ \<Rightarrow> Some r)
     = (case first_min key (filter preferred pool) of
          Some r \<Rightarrow> Some r
        | None \<Rightarrow> first_min key (filter (\<lambda>r. \<not> preferred r) pool))"
  by (simp add: selector_spec_def split: option.splits)

lemma example_records:
  "cash_record c example_qr \<noteq> Inl IndexError" "cash_record c example_ek \<noteq> Inl IndexError"
  by (simp_all add: cash_record_def example_qr_def example_ek_def Let_def)

lemma example_pool_ek:
  "cash_pool ''BUSINESS'' [example_ek] =
    [\<lparr> cabin = lower ''BUSINESS'', carrier_codes = [''EK''], carrier_label = ''Emirates'',
       is_qatar = False, flight_nums = ''EK142 / EK414'', via = ''DXB'',
       dep = ''2026-09-14T10:00:00'', arr = ''2026-09-15T06:00:00'',
       price_total = 6200, price_pp = 3100 \<rparr>]"
  by (simp add: cash_pool_def cash_record_def example_ek_def example_segment_def Let_def
        MAX_STOPS_def ALL_CARRIERS_def segment_code_def carrier_name_def CARRIER_NAMES_def
        PASSENGERS_def)

text \<open>
  C2. For every list of fetched items, a search returns the selection of the contract
  applied to its candidate pool (the records of the items that pass the filters of the
  loop, in input order): at most two offers, first the cheapest offer whose carrier codes
  include \<^verbatim>\<open>QR\<close>, then the cheapest offer whose carrier codes do not, each only when
  there is one. Cash fares are ranked by \<^verbatim>\<open>price_total\<close> and reward seats by
  \<^verbatim>\<open>points_pp\<close>, ascending; among equally cheap offers the earliest of the input wins. An
  empty input gives the empty result and raises nothing, and a pool that holds only
  offers off the preferred carrier gives exactly one offer, its cheapest. The reward
  search always returns; the cash search returns unless an itinerary has no segment at
  all, the one input on which \<^verbatim>\<open>segments[0]\<close> raises.
\<close>

theorem selector_contract:
  "(\<forall>rs. search_cash_fares cash_cabin offers = Inr rs \<longrightarrow>
        rs = selector_spec price_total (cash_pool cash_cabin offers))
   \<and> ((\<forall>offer \<in> set offers. cash_record cash_cabin offer \<noteq> Inl IndexError) \<longrightarrow>
        search_cash_fares cash_cabin offers
          = Inr (selector_spec price_total (cash_pool cash_cabin offers)))
   \<and> search_velocity_seats reward_cabin data
        = Inr (selector_spec points_pp (reward_pool reward_cabin data))
   \<and> search_cash_fares cash_cabin [] = Inr []
   \<and> search_velocity_seats reward_cabin [] = Inr []
   \<and> length (selector_spec key pool) \<le> 2
   \<and> selector_spec key [] = []
   \<and> (pool \<noteq> [] \<and> (\<forall>r \<in> set pool. \<not> preferred r) \<longrightarrow>
        (\<exists>r. selector_spec key pool = [r] \<and> \<not> preferred r \<and> first_min key pool = Some r))
   \<and> (\<forall>xs r. first_min key xs = Some r \<longrightarrow>
        (\<exists>ys zs. xs = ys @ r # zs \<and> (\<forall>y \<in> set ys. key r < key y)
                 \<and> (\<forall>z \<in> set zs. key r \<le> key z)))"
proof (intro conjI allI impI)
  fix rs assume "search_cash_fares cash_cabin offers = Inr rs"
  then show "rs = selector_spec price_total (cash_pool cash_cabin offers)"
    by (rule search_cash_fares_spec)
next
  assume "\<forall>offer \<in> set offers. cash_record cash_cabin offer \<noteq> Inl IndexError"
  then show "search_cash_fares cash_cabin offers
          = Inr (selector_spec price_total (cash_pool cash_cabin offers))"
    by (rule search_cash_fares_returns)
next
  show "search_velocity_seats reward_cabin data
        = Inr (selector_spec points_pp (reward_pool reward_cabin data))"
    by (rule search_velocity_seats_spec)
next
  have "cash_loop cash_cabin [] [] [] = Inr ([], [])" by simp
  then show "search_cash_fares cash_cabin [] = Inr []"
    unfolding search_cash_fares_def by simp
next
  have "reward_loop reward_cabin [] [] [] = Inr ([], [])" by simp
  then show "search_velocity_seats reward_cabin [] = Inr []"
    unfolding search_velocity_seats_def by simp
next
  show "length (selector_spec key pool) \<le> 2" by (rule selector_spec_length)
next
  show "selector_spec key [] = []" unfolding selector_spec_def by simp
next
  assume "pool \<noteq> [] \<and> (\<forall>r \<in> set pool. \<not> preferred r)"
  then have "pool \<noteq> []" "\<forall>r \<in> set pool. \<not> preferred r" by simp_all
  then show "\<exists>r. selector_spec key pool = [r] \<and> \<not> preferred r \<and> first_min key pool = Some r"
    by (rule selector_spec_only_others)
next
  fix xs r assume "first_min key xs = Some r"
  then show "\<exists>ys zs. xs = ys @ r # zs \<and> (\<forall>y \<in> set ys. key r < key y)
                 \<and> (\<forall>z \<in> set zs. key r \<le> key z)"
    by (rule first_min_split)
qed


theorem selector_contract_witness:
  "cash_record ''BUSINESS'' example_ek \<noteq> Inl IndexError
   \<and> cash_record ''BUSINESS'' example_qr \<noteq> Inl IndexError
   \<and> search_cash_fares ''BUSINESS'' [example_ek, example_qr]
        = Inr (selector_spec price_total (cash_pool ''BUSINESS'' [example_ek, example_qr]))
   \<and> cash_pool ''BUSINESS'' [example_ek] \<noteq> []
   \<and> \<not> list_ex preferred (cash_pool ''BUSINESS'' [example_ek])
   \<and> (\<exists>r. selector_spec price_total (cash_pool ''BUSINESS'' [example_ek]) = [r]
          \<and> \<not> preferred r
          \<and> first_min price_total (cash_pool ''BUSINESS'' [example_ek]) = Some r)"
proof -
  note t = selector_contract[of "''BUSINESS''" "[example_ek, example_qr]" "''business''" "[]"
        price_total "cash_pool ''BUSINESS'' [example_ek]"]
  have e1: "cash_record ''BUSINESS'' example_ek \<noteq> Inl IndexError"
    and e2: "cash_record ''BUSINESS'' example_qr \<noteq> Inl IndexError"
    by (rule example_records)+
  have h1: "\<forall>offer \<in> set [example_ek, example_qr]. cash_record ''BUSINESS'' offer \<noteq> Inl IndexError"
    using e1 e2 by simp
  have h2: "cash_pool ''BUSINESS'' [example_ek] \<noteq> []"
    unfolding example_pool_ek by simp
  have h3: "\<not> list_ex preferred (cash_pool ''BUSINESS'' [example_ek])"
    unfolding example_pool_ek by (simp add: preferred_def)
  have h3': "\<forall>r \<in> set (cash_pool ''BUSINESS'' [example_ek]). \<not> preferred r"
    using h3 by (simp add: list_ex_iff)
  have c1: "search_cash_fares ''BUSINESS'' [example_ek, example_qr]
        = Inr (selector_spec price_total (cash_pool ''BUSINESS'' [example_ek, example_qr]))"
    by (rule mp[OF t[THEN conjunct2, THEN conjunct1] h1])
  have c2: "\<exists>r. selector_spec price_total (cash_pool ''BUSINESS'' [example_ek]) = [r]
          \<and> \<not> preferred r
          \<and> first_min price_total (cash_pool ''BUSINESS'' [example_ek]) = Some r"
    by (rule mp[OF t[THEN conjunct2, THEN conjunct2, THEN conjunct2, THEN conjunct2,
            THEN conjunct2, THEN conjunct2, THEN conjunct2, THEN conjunct1] conjI[OF h2 h3']])
  show ?thesis using e1 e2 c1 h2 h3 c2 by (intro conjI)
qed

section \<open>Properties of \<^verbatim>\<open>summarise_for_state\<close>\<close>

text \<open>
  C3, as the code has it. For every combination of selector outputs, each of the five
  price and points entries of the snapshot is the projection (the rounded per-person
  price, or the points per person) of the first offer of its selector output, and is
  absent exactly when that output is empty. The first offer of a selection is the
  cheapest preferred-carrier offer when the pool has one and the cheapest offer off the
  preferred carrier otherwise. The two seat entries are never absent: they hold the seats
  of the first offer of their output, and 0 when it is empty. The snapshot has the seven
  tracked keys, in the order of the diff.
\<close>

theorem snapshot_entries:
  "get (summarise_for_state cash_biz pts_biz cash_biz_mad_doh pts_biz_mad_doh
          cash_biz_doh_syd pts_biz_doh_syd cash_eco pts_eco) ''biz_cash_pp''
      = (case cash_biz of [] \<Rightarrow> None | r # _ \<Rightarrow> Some (py_round (price_pp r)))
   \<and> get (summarise_for_state cash_biz pts_biz cash_biz_mad_doh pts_biz_mad_doh
          cash_biz_doh_syd pts_biz_doh_syd cash_eco pts_eco) ''biz_pts_pp_through''
      = (case pts_biz of [] \<Rightarrow> None | r # _ \<Rightarrow> Some (points_pp r))
   \<and> get (summarise_for_state cash_biz pts_biz cash_biz_mad_doh pts_biz_mad_doh
          cash_biz_doh_syd pts_biz_doh_syd cash_eco pts_eco) ''biz_pts_pp_doh_syd''
      = (case pts_biz_doh_syd of [] \<Rightarrow> None | r # _ \<Rightarrow> Some (points_pp r))
   \<and> get (summarise_for_state cash_biz pts_biz cash_biz_mad_doh pts_biz_mad_doh
          cash_biz_doh_syd pts_biz_doh_syd cash_eco pts_eco) ''eco_cash_pp''
      = (case cash_eco of [] \<Rightarrow> None | r # _ \<Rightarrow> Some (py_round (price_pp r)))
   \<and> get (summarise_for_state cash_biz pts_biz cash_biz_mad_doh pts_biz_mad_doh
          cash_biz_doh_syd pts_biz_doh_syd cash_eco pts_eco) ''eco_pts_pp''
      = (case pts_eco of [] \<Rightarrow> None | r # _ \<Rightarrow> Some (points_pp r))
   \<and> get (summarise_for_state cash_biz pts_biz cash_biz_mad_doh pts_biz_mad_doh
          cash_biz_doh_syd pts_biz_doh_syd cash_eco pts_eco) ''biz_seats_through''
      = Some (case pts_biz of [] \<Rightarrow> 0 | r # _ \<Rightarrow> seats_avail r)
   \<and> get (summarise_for_state cash_biz pts_biz cash_biz_mad_doh pts_biz_mad_doh
          cash_biz_doh_syd pts_biz_doh_syd cash_eco pts_eco) ''biz_seats_doh_syd''
      = Some (case pts_biz_doh_syd of [] \<Rightarrow> 0 | r # _ \<Rightarrow> seats_avail r)
   \<and> map fst (summarise_for_state cash_biz pts_biz cash_biz_mad_doh pts_biz_mad_doh
          cash_biz_doh_syd pts_biz_doh_syd cash_eco pts_eco) = map fst labels
   \<and> (case selector_spec key pool of [] \<Rightarrow> None | r # _ \<Rightarrow> Some r)
      = (case first_min key (filter preferred pool) of
           Some r \<Rightarrow> Some r
         | None \<Rightarrow> first_min key (filter (\<lambda>r. \<not> preferred r) pool))"
proof -
  let ?S = "summarise_for_state cash_biz pts_biz cash_biz_mad_doh pts_biz_mad_doh
          cash_biz_doh_syd pts_biz_doh_syd cash_eco pts_eco"
  have c: "\<And>xs. cash_pp xs = (case xs of [] \<Rightarrow> None | r # _ \<Rightarrow> Some (py_round (price_pp r)))"
    by (simp add: cash_pp_def split: list.splits)
  have p: "\<And>xs. pts_pp xs = (case xs of [] \<Rightarrow> None | r # _ \<Rightarrow> Some (points_pp r))"
    by (simp add: pts_pp_def split: list.splits)
  have s: "\<And>xs. (if xs \<noteq> [] then seats_avail (xs ! 0) else 0)
              = (case xs of [] \<Rightarrow> 0 | r # _ \<Rightarrow> seats_avail r)"
    by (simp split: list.splits)
  have 1: "get ?S ''biz_cash_pp'' = cash_pp cash_biz"
    by (simp add: summarise_for_state_def get_def)
  have 2: "get ?S ''biz_pts_pp_through'' = pts_pp pts_biz"
    by (simp add: summarise_for_state_def get_def)
  have 3: "get ?S ''biz_pts_pp_doh_syd'' = pts_pp pts_biz_doh_syd"
    by (simp add: summarise_for_state_def get_def)
  have 4: "get ?S ''eco_cash_pp'' = cash_pp cash_eco"
    by (simp add: summarise_for_state_def get_def)
  have 5: "get ?S ''eco_pts_pp'' = pts_pp pts_eco"
    by (simp add: summarise_for_state_def get_def)
  have 6: "get ?S ''biz_seats_through''
             = Some (if pts_biz \<noteq> [] then seats_avail (pts_biz ! 0) else 0)"
    by (simp add: summarise_for_state_def get_def)
  have 7: "get ?S ''biz_seats_doh_syd''
             = Some (if pts_biz_doh_syd \<noteq> [] then seats_avail (pts_biz_doh_syd ! 0) else 0)"
    by (simp add: summarise_for_state_def get_def)
  have 8: "map fst ?S = map fst labels"
    by (simp add: summarise_for_state_def labels_def)
  have 9: "(case selector_spec key pool of [] \<Rightarrow> None | r # _ \<Rightarrow> Some r)
      = (case first_min key (filter preferred pool) of
           Some r \<Rightarrow> Some r
         | None \<Rightarrow> first_min key (filter (\<lambda>r. \<not> preferred r) pool))"
    by (rule selector_spec_head)
  show ?thesis
    unfolding 1 2 3 4 5 6 7 s
    using c[of cash_biz] c[of cash_eco] p[of pts_biz] p[of pts_biz_doh_syd] p[of pts_eco] 8 9
    by (intro conjI) simp_all
qed

theorem snapshot_entries_witness:
  "get (summarise_for_state (cash_pool ''BUSINESS'' [example_ek]) [] [] [] [] [] [] [])
       ''biz_cash_pp''
     = (case cash_pool ''BUSINESS'' [example_ek] of
          [] \<Rightarrow> None | r # _ \<Rightarrow> Some (py_round (price_pp r)))"
  by (rule snapshot_entries[of "cash_pool ''BUSINESS'' [example_ek]" "[]" "[]" "[]"
      "[]" "[]" "[]" "[]" price_total "[]", THEN conjunct1])

theorem snapshot_defaults_and_fallback:
  "get (summarise_for_state [] [] [] [] [] [] [] []) ''biz_seats_through'' = Some 0
   \<and> search_cash_fares ''BUSINESS'' [example_ek] = Inr (cash_pool ''BUSINESS'' [example_ek])
   \<and> \<not> list_ex preferred (cash_pool ''BUSINESS'' [example_ek])
   \<and> get (summarise_for_state (cash_pool ''BUSINESS'' [example_ek]) [] [] [] [] [] [] [])
        ''biz_cash_pp'' = Some 3100"
proof -
  have r: "\<forall>offer \<in> set [example_ek]. cash_record ''BUSINESS'' offer \<noteq> Inl IndexError"
    by (simp add: example_records)
  have s: "search_cash_fares ''BUSINESS'' [example_ek]
             = Inr (selector_spec price_total (cash_pool ''BUSINESS'' [example_ek]))"
    using r by (rule search_cash_fares_returns)
  have t: "selector_spec price_total (cash_pool ''BUSINESS'' [example_ek])
             = cash_pool ''BUSINESS'' [example_ek]"
    unfolding example_pool_ek by (simp add: selector_spec_def preferred_def)
  have u: "\<not> list_ex preferred (cash_pool ''BUSINESS'' [example_ek])"
    unfolding example_pool_ek by (simp add: preferred_def)
  have v: "get (summarise_for_state (cash_pool ''BUSINESS'' [example_ek]) [] [] [] [] [] [] [])
        ''biz_cash_pp'' = Some 3100"
    unfolding example_pool_ek
    by (simp add: summarise_for_state_def get_def cash_pp_def py_round_def)
  have w: "get (summarise_for_state [] [] [] [] [] [] [] []) ''biz_seats_through'' = Some 0"
    by (simp add: summarise_for_state_def get_def)
  show ?thesis using w s[unfolded t] u v by (intro conjI)
qed

end
